theory Spec2Isabelle
  imports Main "HOL-Library.Multiset"
begin

section \<open>The sentinels setup generator\<close>

text \<open>
  A shallow embedding of package \<open>sentinels\<close> (file \<open>app.go\<close>) and of the POST branch of
  the web handler (file \<open>sentinels_app/server.go\<close>).

  Go's \<open>int\<close> has 64 bits and is modelled as \<open>int\<close>, with the wrap-around written out
  where a parameter of the caller enters the arithmetic: \<open>l - 1\<close>, \<open>min - rg\<close> and
  \<open>max + rg\<close>. The numbers of the dataset are below 1000 in magnitude and a score is a
  sum of a few of them, and \<open>i + 1\<close> stays below 100002. Indices that the code has
  already checked to be non-negative are \<open>nat\<close>.

  A Go function can end in four ways, and the model keeps them apart: it returns
  (values and \<open>error\<close> values are ordinary results), it panics or calls \<open>log.Fatalf\<close>
  (\<open>Inl\<close> of a \<open>panic\<close>), or it never returns (\<open>None\<close>).
\<close>

subsection \<open>Data\<close>

datatype CardType = Hero | Villain | Environment

datatype ExpansionType =
  BaseSet | MiniExpansion | RookCity | InfernalRelics | ShatteredTimelines | Vengeance | Promos

record Card =
  Name :: string
  Type :: CardType
  Expansion :: ExpansionType
  Points :: int
  Advanced :: int
  AdvCount :: int
  Base :: string

record CardSet =
  Heroes :: "Card list"
  Villains :: "Card list"
  Environments :: "Card list"

record ScaleData =
  Total :: int
  LossPct :: int

text \<open>
  Of \<open>SentinelsData\<close> the search reads two tables: \<open>sd.Difficulty.Nump[_].Points\<close>, kept
  here as the list of those points, and \<open>sd.Scale\<close>.
\<close>

record SentinelsData =
  Nump :: "int list"
  Scale :: "ScaleData list"

text \<open>
  A \<open>Setup\<close>. The slice \<open>s.Heroes\<close> is either \<open>nil\<close> or the result of \<open>append\<close>, which is
  never empty, so \<open>nil\<close> is the empty list and \<open>s.Heroes != nil\<close> is \<open>SetupHeroes s \<noteq> []\<close>.
  The two card pointers are \<open>nil\<close> until they are assigned.
\<close>

record Setup =
  SetupHeroes :: "Card list"
  SetupVillain :: "Card option"
  SetupEnvironment :: "Card option"
  PcPoints :: int
  Difficulty :: int

text \<open>The two values built with \<open>errors.New\<close>, named after their messages.\<close>

datatype error =
  TooManyPlayers \<comment> \<open>"Too many players for the selected heroes."\<close>
| NoSetupFound \<comment> \<open>"Couldn't find a setup with these parameters."\<close>

text \<open>Abnormal ends: a run-time panic, or the exit of the process by \<open>log.Fatalf\<close>.\<close>

datatype panic =
  IndexOutOfRange \<comment> \<open>slice index out of range\<close>
| IntnInvalidArgument \<comment> \<open>\<open>rand.Intn(n)\<close> with \<open>n <= 0\<close>\<close>
| LogFatal \<comment> \<open>\<open>log.Fatalf\<close> in \<open>pick\<close>\<close>

text \<open>The \<open>nump\<close> table of the embedded JSON dataset.\<close>

definition sdNump :: "int list" where
  "sdNump = [42, -38, -42]"

subsection \<open>Machine integers\<close>

definition MinInt64 :: int where
  "MinInt64 = - (2 ^ 63)"

definition MaxInt64 :: int where
  "MaxInt64 = 2 ^ 63 - 1"

text \<open>
  The result of one addition or subtraction of two 64-bit integers, brought back into
  the range.
\<close>

definition wrap :: "int \<Rightarrow> int" where
  "wrap x = (if x < MinInt64 then x + 2 ^ 64 else if MaxInt64 < x then x - 2 ^ 64 else x)"

text \<open>
  \<open>l - 1\<close>: a decrement leaves the range only below, at the least integer, where it wraps
  to the greatest.
\<close>

definition decr :: "int \<Rightarrow> int" where
  "decr l = (if l - 1 < MinInt64 then l - 1 + 2 ^ 64 else l - 1)"

subsection \<open>Randomness\<close>

text \<open>
  The generator is an infinite tape \<open>rnd\<close> of naturals and a position \<open>k\<close> on it; each
  call of \<open>rand.Intn(n)\<close> reads one cell, reduces it below \<open>n\<close> and advances. Every
  sequence of results of the real generator is such a tape.
\<close>

definition Intn :: "(nat \<Rightarrow> nat) \<Rightarrow> int \<Rightarrow> nat \<Rightarrow> panic + nat \<times> nat" where
  "Intn rnd n k = (if n \<le> 0 then Inl IntnInvalidArgument else Inr (rnd k mod nat n, k + 1))"

subsection \<open>pick\<close>

text \<open>The second loop of \<open>pick\<close>: position \<open>i\<close> is swapped with a random later one.\<close>

function shuffle :: "(nat \<Rightarrow> nat) \<Rightarrow> nat \<Rightarrow> nat \<Rightarrow> nat list \<Rightarrow> nat \<Rightarrow> panic + nat list \<times> nat" where
  "shuffle rnd i n vals k =
     (if i < n then
        (case Intn rnd (int n - int i) k of
           Inl p \<Rightarrow> Inl p
         | Inr (j, k') \<Rightarrow>
             shuffle rnd (i + 1) n (vals[i := vals ! (i + j), i + j := vals ! i]) k')
      else Inr (vals, k))"
  by pat_completeness auto
termination
  by (relation "measure (\<lambda>(rnd, i, n, vals, k). n - i)") auto

declare shuffle.simps [simp del]

definition pick :: "(nat \<Rightarrow> nat) \<Rightarrow> int \<Rightarrow> int \<Rightarrow> nat \<Rightarrow> panic + nat list \<times> nat" where
  "pick rnd n m k =
     (if n \<le> 0 \<or> m \<le> 0 \<or> m > n then Inl LogFatal
      else case shuffle rnd 0 (nat n) [0..<nat n] k of
             Inl p \<Rightarrow> Inl p
           | Inr (vals, k') \<Rightarrow> Inr (take (nat m) vals, k'))"

subsection \<open>makeSetup\<close>

text \<open>
  The \<open>for ... range\<close> loop over the picked indices. \<open>bases\<close> is the \<open>map[string]bool\<close>,
  whose missing keys read as \<open>false\<close>. On a repeated base the heroes are dropped and the
  loop is left; \<open>Difficulty\<close> keeps what was added before.
\<close>

fun addHeroes :: "Card list \<Rightarrow> nat list \<Rightarrow> (string \<Rightarrow> bool) \<Rightarrow> Setup \<Rightarrow> Setup" where
  "addHeroes hs [] bases s = s"
| "addHeroes hs (i # idxs) bases s =
     (let c = hs ! i in
      if bases (Base c) then s\<lparr>SetupHeroes := []\<rparr>
      else addHeroes hs idxs (bases(Base c := True))
             (s\<lparr>SetupHeroes := SetupHeroes s @ [c], Difficulty := Difficulty s + Points c\<rparr>))"

text \<open>The outer \<open>for\<close> loop, which has no bound: it may run forever.\<close>

partial_function (option) makeSetup_loop ::
  "(nat \<Rightarrow> nat) \<Rightarrow> CardSet \<Rightarrow> int \<Rightarrow> Setup \<Rightarrow> nat \<Rightarrow> (panic + Setup \<times> nat) option" where
  "makeSetup_loop rnd cs pc s k =
     (case pick rnd (int (length (Heroes cs))) pc k of
        Inl p \<Rightarrow> Some (Inl p)
      | Inr (idxs, k') \<Rightarrow>
          (let s' = addHeroes (Heroes cs) idxs (\<lambda>b. False) s in
           if SetupHeroes s' \<noteq> [] then Some (Inr (s', k'))
           else makeSetup_loop rnd cs pc s' k'))"

definition makeSetup ::
  "(nat \<Rightarrow> nat) \<Rightarrow> CardSet \<Rightarrow> int \<Rightarrow> int \<Rightarrow> nat \<Rightarrow> (panic + (error + Setup) \<times> nat) option" where
  "makeSetup rnd cs pc pcpts k =
     (if pc > int (length (Heroes cs)) then Some (Inr (Inl TooManyPlayers, k))
      else
        case makeSetup_loop rnd cs pc
               \<lparr>SetupHeroes = [], SetupVillain = None, SetupEnvironment = None,
                PcPoints = pcpts, Difficulty = pcpts\<rparr> k of
          None \<Rightarrow> None
        | Some (Inl p) \<Rightarrow> Some (Inl p)
        | Some (Inr (s, k1)) \<Rightarrow>
            (case Intn rnd (int (length (Villains cs))) k1 of
               Inl p \<Rightarrow> Some (Inl p)
             | Inr (v, k2) \<Rightarrow>
                 (let s1 = s\<lparr>SetupVillain := Some (Villains cs ! v),
                              Difficulty := Difficulty s + Points (Villains cs ! v)\<rparr> in
                  case Intn rnd (int (length (Environments cs))) k2 of
                    Inl p \<Rightarrow> Some (Inl p)
                  | Inr (e, k3) \<Rightarrow>
                      Some (Inr (Inr (s1\<lparr>SetupEnvironment := Some (Environments cs ! e),
                                          Difficulty := Difficulty s1 + Points (Environments cs ! e)\<rparr>),
                                 k3)))))"

subsection \<open>findDifficultyRange\<close>

text \<open>The test that leaves the loop, and the rest of the loop body, on \<open>(min, max)\<close>.\<close>

definition leaves_scan :: "int \<Rightarrow> ScaleData \<Rightarrow> bool" where
  "leaves_scan l v \<longleftrightarrow> LossPct v \<le> decr l"

definition record_match :: "int \<Rightarrow> int \<times> int \<Rightarrow> ScaleData \<Rightarrow> int \<times> int" where
  "record_match l acc v =
     (case acc of (mn, mx) \<Rightarrow>
        if LossPct v \<le> l then (Total v, if mx = 0 then Total v else mx) else (mn, mx))"

fun findDifficultyRange_loop :: "ScaleData list \<Rightarrow> int \<Rightarrow> int \<times> int \<Rightarrow> int \<times> int" where
  "findDifficultyRange_loop [] l acc = acc"
| "findDifficultyRange_loop (v # vs) l acc =
     (if leaves_scan l v then acc else findDifficultyRange_loop vs l (record_match l acc v))"

definition findDifficultyRange :: "SentinelsData \<Rightarrow> int \<Rightarrow> int \<times> int" where
  "findDifficultyRange sd l = findDifficultyRange_loop (Scale sd) l (0, 0)"

subsection \<open>GetCardSet and FindSetup\<close>

text \<open>
  \<open>Cards\<close> is a Go map, iterated in an order the language leaves open; \<open>cards\<close> is the list
  of its values in the order of one iteration.
\<close>

definition addCard :: "ExpansionType list \<Rightarrow> CardSet \<Rightarrow> Card \<Rightarrow> CardSet" where
  "addCard exp cs c =
     (if Expansion c \<notin> set exp then cs
      else case Type c of
             Hero \<Rightarrow> cs\<lparr>Heroes := Heroes cs @ [c]\<rparr>
           | Villain \<Rightarrow> cs\<lparr>Villains := Villains cs @ [c]\<rparr>
           | Environment \<Rightarrow> cs\<lparr>Environments := Environments cs @ [c]\<rparr>)"

definition GetCardSet :: "Card list \<Rightarrow> ExpansionType list \<Rightarrow> CardSet" where
  "GetCardSet cards exp =
     foldl (addCard exp) \<lparr>Heroes = [], Villains = [], Environments = []\<rparr> cards"

text \<open>
  The trial loop. The result is Go's triple \<open>(*Setup, int, error)\<close> and the position
  reached on the tape.
\<close>

function FindSetup_loop ::
  "(nat \<Rightarrow> nat) \<Rightarrow> CardSet \<Rightarrow> int \<Rightarrow> int \<Rightarrow> int \<Rightarrow> int \<Rightarrow> int \<Rightarrow> int \<Rightarrow> nat \<Rightarrow>
   (panic + (Setup option \<times> int \<times> error option) \<times> nat) option" where
  "FindSetup_loop rnd cs pc pcpts mn mx rg i k =
     (if i \<ge> 100000 then Some (Inr ((None, i + 1, Some NoSetupFound), k))
      else
        case makeSetup rnd cs pc pcpts k of
          None \<Rightarrow> None
        | Some (Inl p) \<Rightarrow> Some (Inl p)
        | Some (Inr (Inl err, k')) \<Rightarrow> Some (Inr ((None, 0, Some err), k'))
        | Some (Inr (Inr s, k')) \<Rightarrow>
            if Difficulty s \<ge> wrap (mn - rg) \<and> Difficulty s \<le> wrap (mx + rg)
            then Some (Inr ((Some s, i + 1, None), k'))
            else FindSetup_loop rnd cs pc pcpts mn mx rg (i + 1) k')"
  by pat_completeness auto
termination
  by (relation "measure (\<lambda>(rnd, cs, pc, pcpts, mn, mx, rg, i, k). nat (100000 - i))") auto

declare FindSetup_loop.simps [simp del]

definition FindSetup ::
  "SentinelsData \<Rightarrow> Card list \<Rightarrow> (nat \<Rightarrow> nat) \<Rightarrow> int \<Rightarrow> int \<Rightarrow> int \<Rightarrow> ExpansionType list \<Rightarrow> nat \<Rightarrow>
   (panic + (Setup option \<times> int \<times> error option) \<times> nat) option" where
  "FindSetup sd cards rnd pc lp rg exp k =
     (let cs = GetCardSet cards exp in
      case findDifficultyRange sd lp of (mn, mx) \<Rightarrow>
        if pc - 3 < 0 \<or> pc - 3 \<ge> int (length (Nump sd)) then Some (Inl IndexOutOfRange)
        else FindSetup_loop rnd cs pc (Nump sd ! nat (pc - 3)) mn mx rg 0 k)"

subsection \<open>The web handler\<close>

text \<open>
  The POST branch of \<open>handler\<close>, after \<open>formInts\<close> has parsed \<open>pc\<close> and \<open>lp\<close> with
  \<open>strconv.Atoi\<close>, which accepts every decimal integer. \<open>exp\<close> is the list of ticked
  expansions. Of the \<open>result\<close> record the fields that depend on the search are kept.
\<close>

record result =
  ResultPC :: int
  ResultLP :: int
  ResultSetup :: "Setup option"
  ResultMsg :: string
  ResultIterations :: int

definition Error :: "error \<Rightarrow> string" where
  "Error e = (case e of
      TooManyPlayers \<Rightarrow> ''Too many players for the selected heroes.''
    | NoSetupFound \<Rightarrow> ''Couldn't find a setup with these parameters.'')"

definition handler_POST ::
  "SentinelsData \<Rightarrow> Card list \<Rightarrow> (nat \<Rightarrow> nat) \<Rightarrow> int \<Rightarrow> int \<Rightarrow> ExpansionType list \<Rightarrow> nat \<Rightarrow>
   (panic + result \<times> nat) option" where
  "handler_POST sd cards rnd pc lp exp k =
     (let r = \<lparr>ResultPC = 0, ResultLP = 0, ResultSetup = None, ResultMsg = [],
               ResultIterations = 0\<rparr> in
      if length exp = 0 then Some (Inr (r\<lparr>ResultMsg := ''No card set selected.''\<rparr>, k))
      else
        case FindSetup sd cards rnd pc lp 10 exp k of
          None \<Rightarrow> None
        | Some (Inl p) \<Rightarrow> Some (Inl p)
        | Some (Inr ((s, n, err), k')) \<Rightarrow>
            Some (Inr (r\<lparr>ResultPC := pc, ResultLP := lp, ResultSetup := s,
                         ResultIterations := n,
                         ResultMsg := (case err of None \<Rightarrow> [] | Some e \<Rightarrow> Error e)\<rparr>, k')))"

subsection \<open>The specification's wording\<close>

text \<open>
  Section 4.1, step 2 of the specification leaves the scan at a breakpoint whose loss
  percentage is strictly less than \<open>targetLossPct - 1\<close>.
\<close>

definition leaves_scan_spec :: "int \<Rightarrow> ScaleData \<Rightarrow> bool" where
  "leaves_scan_spec l v \<longleftrightarrow> LossPct v < l - 1"

text \<open>The breakpoints a scan walks over when it is left at the first one that \<open>stop\<close> holds of.\<close>

definition walked :: "(ScaleData \<Rightarrow> bool) \<Rightarrow> ScaleData list \<Rightarrow> ScaleData list" where
  "walked stop tbl = takeWhile (\<lambda>v. \<not> stop v) tbl"

text \<open>
  Section 4.2, step 4: the score is the base offset plus the points of the chosen
  player-characters, of the antagonist and of the environment.
\<close>

definition score_spec :: "int \<Rightarrow> Card list \<Rightarrow> Card \<Rightarrow> Card \<Rightarrow> int" where
  "score_spec pcpts heroes v e = pcpts + sum_list (map Points heroes) + Points v + Points e"

subsection \<open>The draws of a search\<close>

text \<open>
  The candidate of trial \<open>j + 1\<close> of a search that starts at cell \<open>k\<close>, with the cell reached
  after it: the result of the \<open>(j + 1)\<close>-th call of \<open>makeSetup\<close>, when that call and all
  calls before it returned a setup.
\<close>

fun nth_draw ::
  "(nat \<Rightarrow> nat) \<Rightarrow> CardSet \<Rightarrow> int \<Rightarrow> int \<Rightarrow> nat \<Rightarrow> nat \<Rightarrow> (Setup \<times> nat) option" where
  "nth_draw rnd cs pc pcpts 0 k =
     (case makeSetup rnd cs pc pcpts k of
        Some (Inr (Inr s, k')) \<Rightarrow> Some (s, k')
      | _ \<Rightarrow> None)"
| "nth_draw rnd cs pc pcpts (Suc j) k =
     (case makeSetup rnd cs pc pcpts k of
        Some (Inr (Inr s, k')) \<Rightarrow> nth_draw rnd cs pc pcpts j k'
      | _ \<Rightarrow> None)"

declare nth_draw.simps [simp del]

subsection \<open>Data of the repository used as concrete inputs\<close>

definition bp :: "int \<Rightarrow> int \<Rightarrow> ScaleData" where
  "bp t p = \<lparr>Total = t, LossPct = p\<rparr>"

text \<open>The \<open>scale\<close> table of the embedded JSON dataset, all 200 breakpoints.\<close>

definition sdScale :: "ScaleData list" where
  "sdScale =
    [
     bp 500 99, bp 495 99, bp 490 98, bp 484 98, bp 480 98, bp 475 98,
     bp 470 98, bp 465 98, bp 459 98, bp 455 98, bp 450 97, bp 445 97,
     bp 440 97, bp 434 97, bp 430 97, bp 425 97, bp 420 96, bp 415 96,
     bp 409 96, bp 405 96, bp 400 95, bp 395 95, bp 390 95, bp 385 95,
     bp 380 94, bp 375 94, bp 370 94, bp 365 94, bp 360 93, bp 355 93,
     bp 350 92, bp 345 92, bp 340 92, bp 335 91, bp 330 91, bp 325 90,
     bp 320 90, bp 315 90, bp 310 89, bp 305 88, bp 300 88, bp 295 87,
     bp 290 87, bp 285 86, bp 280 86, bp 275 85, bp 270 84, bp 265 84,
     bp 260 83, bp 254 82, bp 250 81, bp 245 81, bp 240 80, bp 235 79,
     bp 229 78, bp 225 77, bp 220 76, bp 215 75, bp 210 74, bp 204 73,
     bp 200 72, bp 195 71, bp 190 70, bp 185 69, bp 180 68, bp 175 67,
     bp 170 66, bp 165 65, bp 160 64, bp 155 63, bp 150 61, bp 145 60,
     bp 140 59, bp 135 58, bp 130 57, bp 125 55, bp 120 54, bp 114 53,
     bp 110 52, bp 105 50, bp 100 49, bp 95 48, bp 90 47, bp 85 45,
     bp 80 44, bp 75 43, bp 70 42, bp 65 40, bp 60 39, bp 55 38,
     bp 50 37, bp 45 36, bp 40 35, bp 35 34, bp 30 32, bp 25 31,
     bp 20 30, bp 15 29, bp 10 28, bp 5 27, bp 0 26, bp (-5) 25,
     bp (-10) 24, bp (-15) 24, bp (-20) 23, bp (-25) 22, bp (-30) 21, bp (-35) 20,
     bp (-40) 19, bp (-45) 19, bp (-50) 18, bp (-55) 17, bp (-60) 17, bp (-65) 16,
     bp (-70) 15, bp (-75) 15, bp (-80) 14, bp (-85) 13, bp (-90) 13, bp (-95) 12,
     bp (-100) 12, bp (-105) 11, bp (-110) 11, bp (-114) 10, bp (-120) 10, bp (-125) 10,
     bp (-130) 9, bp (-135) 9, bp (-140) 8, bp (-145) 8, bp (-150) 8, bp (-155) 7,
     bp (-160) 7, bp (-165) 7, bp (-170) 6, bp (-175) 6, bp (-180) 6, bp (-185) 6,
     bp (-190) 5, bp (-195) 5, bp (-200) 5, bp (-204) 5, bp (-210) 5, bp (-215) 4,
     bp (-220) 4, bp (-225) 4, bp (-229) 4, bp (-235) 4, bp (-240) 4, bp (-245) 3,
     bp (-250) 3, bp (-254) 3, bp (-260) 3, bp (-265) 3, bp (-270) 3, bp (-275) 3,
     bp (-280) 3, bp (-285) 2, bp (-290) 2, bp (-295) 2, bp (-300) 2, bp (-305) 2,
     bp (-310) 2, bp (-315) 2, bp (-320) 2, bp (-325) 2, bp (-330) 2, bp (-335) 2,
     bp (-340) 2, bp (-345) 2, bp (-350) 2, bp (-355) 1, bp (-360) 1, bp (-365) 1,
     bp (-370) 1, bp (-375) 1, bp (-380) 1, bp (-385) 1, bp (-390) 1, bp (-395) 1,
     bp (-400) 1, bp (-405) 1, bp (-409) 1, bp (-415) 1, bp (-420) 1, bp (-425) 1,
     bp (-430) 1, bp (-434) 1, bp (-440) 1, bp (-445) 1, bp (-450) 1, bp (-455) 1,
     bp (-459) 1, bp (-465) 1, bp (-470) 1, bp (-475) 1, bp (-480) 1, bp (-484) 1,
     bp (-490) 1, bp (-495) 1]"

definition sentinelsData :: SentinelsData where
  "sentinelsData = \<lparr>Nump = sdNump, Scale = sdScale\<rparr>"

text \<open>
  Nine cards of the dataset as \<open>makeCards\<close> builds them: a card without a \<open>base\<close> gets its
  own name, and a card that \<open>ExpansionCards\<close> does not list keeps expansion \<open>BaseSet\<close>.
\<close>

definition mkCard ::
  "string \<Rightarrow> CardType \<Rightarrow> ExpansionType \<Rightarrow> int \<Rightarrow> int \<Rightarrow> int \<Rightarrow> string \<Rightarrow> Card" where
  "mkCard n t e p a ac b =
     \<lparr>Name = n, Type = t, Expansion = e, Points = p, Advanced = a, AdvCount = ac, Base = b\<rparr>"

definition Legacy :: Card where
  "Legacy = mkCard ''Legacy'' Hero BaseSet (-45) 0 0 ''Legacy''"

definition YoungLegacy :: Card where
  "YoungLegacy = mkCard ''Young Legacy'' Hero Promos (-24) 0 0 ''Legacy''"

definition Haka :: Card where
  "Haka = mkCard ''Haka'' Hero BaseSet (-5) 0 0 ''Haka''"

definition EternalHaka :: Card where
  "EternalHaka = mkCard ''The Eternal Haka'' Hero Promos (-7) 0 0 ''Haka''"

definition Ra :: Card where
  "Ra = mkCard ''Ra'' Hero BaseSet (-7) 0 0 ''Ra''"

definition GolemUnity :: Card where
  "GolemUnity = mkCard ''Golem Unity'' Hero Promos (-14) 0 0 ''Unity''"

definition BaronBlade :: Card where
  "BaronBlade = mkCard ''Baron Blade'' Villain BaseSet (-63) 4 170 ''Baron Blade''"

definition MadBomberBlade :: Card where
  "MadBomberBlade = mkCard ''Mad Bomber Blade'' Villain Promos (-37) 12 61 ''Baron Blade''"

definition Megalopolis :: Card where
  "Megalopolis = mkCard ''Megalopolis'' Environment BaseSet (-9) 0 0 ''Megalopolis''"

definition someCards :: "Card list" where
  "someCards =
     [Legacy, YoungLegacy, Haka, EternalHaka, Ra, GolemUnity, BaronBlade, MadBomberBlade,
      Megalopolis]"

text \<open>Two tapes: all zeros, and zeros but for cells 7 and 8.\<close>

definition rnd0 :: "nat \<Rightarrow> nat" where
  "rnd0 k = 0"

definition rnd1 :: "nat \<Rightarrow> nat" where
  "rnd1 k = (if k = 7 then 1 else if k = 8 then 2 else 0)"

text \<open>
  A third tape: a draw reads eight cells of it with base set and promos; cells 1, 2 and
  9, 10 pick Legacy, Haka and Ra twice, and cell 6 picks the second villain for the
  first draw.
\<close>

definition rnd2 :: "nat \<Rightarrow> nat" where
  "rnd2 k = (if k = 1 \<or> k = 6 \<or> k = 9 then 1 else if k = 2 \<or> k = 10 then 2 else 0)"

text \<open>The setup with Legacy, Haka and Ra against Mad Bomber Blade in Megalopolis.\<close>

definition drawn_bomber :: Setup where
  "drawn_bomber = \<lparr>SetupHeroes = [Legacy, Haka, Ra], SetupVillain = Some MadBomberBlade,
      SetupEnvironment = Some Megalopolis, PcPoints = 42, Difficulty = -61\<rparr>"

text \<open>The setup with Legacy, Haka and Ra against Baron Blade in Megalopolis, at score \<open>d\<close>.\<close>

definition drawn :: "int \<Rightarrow> Setup" where
  "drawn d = \<lparr>SetupHeroes = [Legacy, Haka, Ra], SetupVillain = Some BaronBlade,
      SetupEnvironment = Some Megalopolis, PcPoints = 42, Difficulty = d\<rparr>"

section \<open>The calibration band lookup\<close>

lemmas card_defs =
  someCards_def Legacy_def YoungLegacy_def Haka_def EternalHaka_def Ra_def GolemUnity_def
  BaronBlade_def MadBomberBlade_def Megalopolis_def mkCard_def

lemma decr_above: "MinInt64 < l \<Longrightarrow> decr l = l - 1"
  by (simp add: decr_def)

lemma decr_MinInt64: "decr MinInt64 = MaxInt64"
  by (simp add: decr_def MinInt64_def MaxInt64_def)

lemma decr_ge: "l - 1 \<le> decr l"
  by (simp add: decr_def)

lemma decr_numeral [simp]: "decr (numeral n) = numeral n - 1"
proof -
  have "MinInt64 < numeral n"
    by (simp add: MinInt64_def)
  then show ?thesis by (rule decr_above)
qed

lemma wrap_in_range: "MinInt64 \<le> x \<Longrightarrow> x \<le> MaxInt64 \<Longrightarrow> wrap x = x"
  by (simp add: wrap_def)

lemma findDifficultyRange_loop_walked:
  "findDifficultyRange_loop tbl l acc = foldl (record_match l) acc (walked (leaves_scan l) tbl)"
  by (induction tbl arbitrary: acc) (simp_all add: walked_def)

text \<open>
  A breakpoint over which the scan walks is recorded only with the target's own loss
  percentage.
\<close>

lemma walked_over_match:
  "\<not> leaves_scan l v \<Longrightarrow> LossPct v \<le> l \<Longrightarrow> LossPct v = l"
  using decr_ge [of l] by (simp add: leaves_scan_def)

lemma findDifficultyRange_loop_no_match:
  "\<forall>v \<in> set tbl. LossPct v \<noteq> l \<Longrightarrow> findDifficultyRange_loop tbl l acc = acc"
proof (induction tbl arbitrary: acc)
  case Nil
  then show ?case by simp
next
  case (Cons v vs)
  show ?case
  proof (cases "leaves_scan l v")
    case True
    then show ?thesis by simp
  next
    case False
    from Cons.prems have "LossPct v \<noteq> l" by simp
    with walked_over_match [OF False] have "\<not> LossPct v \<le> l" by blast
    then have "record_match l acc v = acc"
      by (simp add: record_match_def split: prod.splits)
    with False Cons show ?thesis by simp
  qed
qed

text \<open>
  On a table stored with non-increasing loss percentage, for a target above the least
  integer: once \<open>max\<close> is set and not zero the scan only moves \<open>min\<close>, to the last
  breakpoint of the run.
\<close>

lemma findDifficultyRange_loop_max_set:
  assumes "sorted_wrt (\<lambda>a b. LossPct b \<le> LossPct a) tbl" and "mx \<noteq> 0" and "MinInt64 < l"
  shows "findDifficultyRange_loop tbl l (mn, mx) =
         (case filter (\<lambda>v. LossPct v = l) tbl of [] \<Rightarrow> mn | m # ms \<Rightarrow> Total (last (m # ms)), mx)"
  using assms(1)
proof (induction tbl arbitrary: mn)
  case Nil
  then show ?case by simp
next
  case (Cons v vs)
  note d = decr_above [OF assms(3)]
  from Cons.prems have srt: "sorted_wrt (\<lambda>a b. LossPct b \<le> LossPct a) vs"
    and below: "\<forall>u \<in> set vs. LossPct u \<le> LossPct v"
    by simp_all
  consider "LossPct v \<le> l - 1" | "LossPct v = l" | "l < LossPct v"
    by linarith
  then show ?case
  proof cases
    case 1
    with below have "filter (\<lambda>u. LossPct u = l) vs = []"
      by (auto simp: filter_empty_conv)
    with 1 show ?thesis by (simp add: leaves_scan_def d)
  next
    case 2
    with Cons.IH [OF srt, of "Total v"] assms(2) show ?thesis
      by (simp add: leaves_scan_def d record_match_def split: list.splits)
  next
    case 3
    with Cons.IH [OF srt, of mn] show ?thesis
      by (simp add: leaves_scan_def d record_match_def)
  qed
qed

text \<open>
  So the band is (last, first) of the run of exact matches, provided the first match
  does not have score zero.
\<close>

lemma findDifficultyRange_loop_run:
  assumes "sorted_wrt (\<lambda>a b. LossPct b \<le> LossPct a) tbl"
    and "filter (\<lambda>v. LossPct v = l) tbl = m # ms"
    and "Total m \<noteq> 0"
    and "MinInt64 < l"
  shows "findDifficultyRange_loop tbl l (0, 0) = (Total (last (m # ms)), Total m)"
  using assms(1,2)
proof (induction tbl)
  case Nil
  then show ?case by simp
next
  case (Cons v vs)
  note d = decr_above [OF assms(4)]
  from Cons.prems have srt: "sorted_wrt (\<lambda>a b. LossPct b \<le> LossPct a) vs"
    and below: "\<forall>u \<in> set vs. LossPct u \<le> LossPct v"
    by simp_all
  consider "LossPct v \<le> l - 1" | "LossPct v = l" | "l < LossPct v"
    by linarith
  then show ?case
  proof cases
    case 1
    with below have "filter (\<lambda>u. LossPct u = l) (v # vs) = []"
      by (auto simp: filter_empty_conv)
    with Cons.prems(2) show ?thesis by simp
  next
    case 2
    with Cons.prems(2) have m: "m = v" and ms: "ms = filter (\<lambda>u. LossPct u = l) vs"
      by simp_all
    from assms(3) m have nz: "Total v \<noteq> 0" by simp
    from 2 have "findDifficultyRange_loop (v # vs) l (0, 0) =
                 findDifficultyRange_loop vs l (Total v, Total v)"
      by (simp add: leaves_scan_def d record_match_def)
    also have "\<dots> = (case filter (\<lambda>u. LossPct u = l) vs of [] \<Rightarrow> Total v
                       | a # as \<Rightarrow> Total (last (a # as)), Total v)"
      by (rule findDifficultyRange_loop_max_set [OF srt nz assms(4)])
    also have "\<dots> = (Total (last (m # ms)), Total m)"
      using m ms by (simp split: list.splits)
    finally show ?thesis .
  next
    case 3
    with Cons.prems(2) have "filter (\<lambda>u. LossPct u = l) vs = m # ms" by simp
    from Cons.IH [OF srt this] 3 show ?thesis
      by (simp add: leaves_scan_def d record_match_def)
  qed
qed

text \<open>
  Claim C3, as amended: the scan walks the breakpoints in stored order and is left at
  the first breakpoint whose loss percentage is at most \<open>l - 1\<close> as the machine computes
  it; the band is the loop body run over the breakpoints before it. For every target
  above the least integer that breakpoint is the first with a loss percentage strictly
  less than the target, so one at exactly \<open>l - 1\<close> ends the scan. At the least integer
  \<open>l - 1\<close> wraps to the greatest and the scan is left at the first breakpoint.
\<close>

theorem findDifficultyRange_walks_until_below_target:
  "findDifficultyRange sd l =
     foldl (record_match l) (0, 0) (walked (leaves_scan l) (Scale sd)) \<and>
   (MinInt64 < l \<longrightarrow>
      (leaves_scan l v \<longleftrightarrow> LossPct v \<le> l - 1) \<and> (leaves_scan l v \<longleftrightarrow> LossPct v < l)) \<and>
   (l = MinInt64 \<longrightarrow> (leaves_scan l v \<longleftrightarrow> LossPct v \<le> MaxInt64))"
  by (auto simp: findDifficultyRange_def findDifficultyRange_loop_walked leaves_scan_def
      decr_above decr_MinInt64)

text \<open>
  For the target 80 the breakpoint \<open>(100, 79)\<close> ends the scan of the table
  \<open>(100, 79), (90, 80)\<close> before the match; for the least integer the first breakpoint of
  the dataset does.
\<close>

theorem findDifficultyRange_walks_until_below_target_witness:
  "MinInt64 < 80 \<and> LossPct (bp 100 79) \<le> 80 - 1 \<and> leaves_scan 80 (bp 100 79) \<and>
   findDifficultyRange \<lparr>Nump = sdNump, Scale = [bp 100 79, bp 90 80]\<rparr> 80 = (0, 0) \<and>
   LossPct (bp 500 99) \<le> MaxInt64 \<and> leaves_scan MinInt64 (bp 500 99) \<and>
   findDifficultyRange sentinelsData MinInt64 = (0, 0)"
proof -
  have h1: "MinInt64 < 80"
    by (simp add: MinInt64_def)
  have h2: "LossPct (bp 100 79) \<le> 80 - 1"
    by (simp add: bp_def)
  have h3: "LossPct (bp 500 99) \<le> MaxInt64"
    by (simp add: bp_def MaxInt64_def)
  note T1 = findDifficultyRange_walks_until_below_target
    [of "\<lparr>Nump = sdNump, Scale = [bp 100 79, bp 90 80]\<rparr>" 80 "bp 100 79"]
  note T2 = findDifficultyRange_walks_until_below_target [of sentinelsData MinInt64 "bp 500 99"]
  from T1 h1 h2 have l1: "leaves_scan 80 (bp 100 79)"
    by blast
  from T2 h3 have l2: "leaves_scan MinInt64 (bp 500 99)"
    by blast
  from T1 l1 have r1: "findDifficultyRange \<lparr>Nump = sdNump, Scale = [bp 100 79, bp 90 80]\<rparr> 80 = (0, 0)"
    by (simp add: walked_def)
  have "walked (leaves_scan MinInt64) (Scale sentinelsData) = []"
    using l2 by (simp add: walked_def sentinelsData_def sdScale_def)
  with T2 have r2: "findDifficultyRange sentinelsData MinInt64 = (0, 0)"
    by simp
  from h1 h2 h3 l1 l2 r1 r2 show ?thesis by simp
qed

text \<open>
  Claim C3 as the specification states it fails: were a breakpoint with loss percentage
  \<open>l - 1\<close> walked over, the one-line table \<open>(100, 79)\<close> would give the band
  \<open>(100, 100)\<close> for the target 80; the code gives \<open>(0, 0)\<close>.
\<close>

theorem findDifficultyRange_leaves_at_target_minus_one:
  "LossPct (bp 100 79) = 80 - 1 \<and>
   findDifficultyRange \<lparr>Nump = sdNump, Scale = [bp 100 79]\<rparr> 80 = (0, 0) \<and>
   foldl (record_match 80) (0, 0) (walked (leaves_scan_spec 80) [bp 100 79]) = (100, 100)"
  by (simp add: findDifficultyRange_def leaves_scan_def leaves_scan_spec_def walked_def
      record_match_def bp_def)

text \<open>
  Claim C4: the scenario of the specification gives \<open>(minScore, maxScore) = (80, 90)\<close>.
  On the table \<open>(5, 81), (0, 80), (-5, 80), (-10, 79)\<close> the first breakpoint with loss
  percentage 80 has score 0 and the last has score \<open>-5\<close>; the code returns
  \<open>maxScore = -5\<close>, because a \<open>max\<close> of zero counts as not yet set.
\<close>

theorem findDifficultyRange_zero_first_match:
  "findDifficultyRange \<lparr>Nump = sdNump, Scale = [bp 100 90, bp 90 80, bp 80 80, bp 70 70]\<rparr> 80
     = (80, 90) \<and>
   findDifficultyRange \<lparr>Nump = sdNump, Scale = [bp 5 81, bp 0 80, bp (-5) 80, bp (-10) 79]\<rparr> 80
     = (-5, -5)"
  by (simp add: findDifficultyRange_def leaves_scan_def record_match_def bp_def)

text \<open>
  Claim C6: when no breakpoint has exactly the target loss percentage, the band is
  \<open>(0, 0)\<close>.
\<close>

theorem findDifficultyRange_no_match:
  "\<forall>v \<in> set (Scale sd). LossPct v \<noteq> l \<Longrightarrow> findDifficultyRange sd l = (0, 0)"
  by (simp add: findDifficultyRange_def findDifficultyRange_loop_no_match)

text \<open>The dataset has no breakpoint with loss percentage 51.\<close>

theorem findDifficultyRange_no_match_witness:
  "51 \<notin> LossPct ` set (Scale sentinelsData) \<and> findDifficultyRange sentinelsData 51 = (0, 0)"
proof -
  have h: "\<forall>v \<in> set (Scale sentinelsData). LossPct v \<noteq> 51"
    by (simp add: sentinelsData_def sdScale_def bp_def)
  from h findDifficultyRange_no_match [OF h] show ?thesis by auto
qed

section \<open>The sampler\<close>

subsection \<open>pick returns distinct indices\<close>

lemma Intn_Inr: "Intn rnd n k = Inr (j, k') \<Longrightarrow> 0 < n \<and> j < nat n \<and> k' = k + 1"
  by (auto simp: Intn_def split: if_splits)

lemma shuffle_mset:
  "shuffle rnd i n vals k = Inr (vals', k') \<Longrightarrow> n = length vals \<Longrightarrow> mset vals' = mset vals"
proof (induction rnd i n vals k rule: shuffle.induct)
  case (1 rnd i n vals k)
  show ?case
  proof (cases "i < n")
    case False
    with "1.prems" show ?thesis by (simp add: shuffle.simps)
  next
    case True
    from True "1.prems"(1) obtain j k1 where
      I: "Intn rnd (int n - int i) k = Inr (j, k1)"
      and R: "shuffle rnd (i + 1) n (vals[i := vals ! (i + j), i + j := vals ! i]) k1 = Inr (vals', k')"
      by (subst (asm) shuffle.simps) (auto split: sum.splits)
    from Intn_Inr [OF I] True have j: "i + j < n" by linarith
    have "mset vals' = mset (vals[i := vals ! (i + j), i + j := vals ! i])"
      using "1.IH" [OF True I refl R] "1.prems"(2) by simp
    also have "\<dots> = mset vals"
      using mset_swap [of "i + j" vals i] True j "1.prems"(2) by simp
    finally show ?thesis .
  qed
qed

text \<open>The shuffle never panics and reads \<open>n - i\<close> cells of the tape.\<close>

lemma shuffle_returns: "\<exists>vals'. shuffle rnd i n vals k = Inr (vals', k + (n - i))"
proof (induction rnd i n vals k rule: shuffle.induct)
  case (1 rnd i n vals k)
  show ?case
  proof (cases "i < n")
    case False
    then show ?thesis by (simp add: shuffle.simps)
  next
    case True
    then have I: "Intn rnd (int n - int i) k = Inr (rnd k mod nat (int n - int i), k + 1)"
      by (simp add: Intn_def)
    from "1.IH" [OF True I refl] obtain vals' where
      "shuffle rnd (i + 1) n (vals[i := vals ! (i + rnd k mod nat (int n - int i)),
          i + rnd k mod nat (int n - int i) := vals ! i]) (k + 1) = Inr (vals', k + 1 + (n - (i + 1)))"
      by blast
    with True I show ?thesis
      by (subst shuffle.simps) simp
  qed
qed

lemma pick_Inr:
  assumes "pick rnd n m k = Inr (idxs, k')"
  shows "0 < m \<and> m \<le> n \<and> length idxs = nat m \<and> distinct idxs \<and>
         set idxs \<subseteq> {0..<nat n} \<and> k' = k + nat n"
proof -
  from assms have nm: "0 < n" "0 < m" "m \<le> n"
    by (auto simp: pick_def split: if_splits)
  obtain vals where S: "shuffle rnd 0 (nat n) [0..<nat n] k = Inr (vals, k + nat n)"
    using shuffle_returns [of rnd 0 "nat n" "[0..<nat n]" k] by auto
  with assms nm have idxs: "idxs = take (nat m) vals" and k': "k' = k + nat n"
    by (auto simp: pick_def)
  have M: "mset vals = mset [0..<nat n]"
    using shuffle_mset [OF S] by simp
  then have "length vals = nat n"
    using mset_eq_length by fastforce
  moreover have "distinct vals"
    using M by (metis distinct_upt mset_eq_imp_distinct_iff)
  moreover have "set vals = {0..<nat n}"
    using M by (metis mset_eq_setD set_upt)
  ultimately show ?thesis
    using nm idxs k' by (auto dest: in_set_takeD)
qed

subsection \<open>The heroes of a setup\<close>

text \<open>
  The invariant of the inner loop: \<open>bases\<close> holds exactly the bases of the heroes added so
  far, which are pairwise distinct. The loop ends with no hero or with one more hero
  for each index.
\<close>

lemma addHeroes_inv:
  assumes "\<forall>b. bases b \<longleftrightarrow> b \<in> Base ` set (SetupHeroes s)"
    and "distinct (map Base (SetupHeroes s))"
    and "set (SetupHeroes s) \<subseteq> set hs"
    and "\<forall>i \<in> set idxs. i < length hs"
  shows "SetupHeroes (addHeroes hs idxs bases s) = [] \<or>
         (length (SetupHeroes (addHeroes hs idxs bases s)) = length (SetupHeroes s) + length idxs \<and>
          distinct (map Base (SetupHeroes (addHeroes hs idxs bases s))) \<and>
          set (SetupHeroes (addHeroes hs idxs bases s)) \<subseteq> set hs)"
  using assms
proof (induction idxs arbitrary: bases s)
  case Nil
  then show ?case by simp
next
  case (Cons i idxs)
  let ?c = "hs ! i"
  show ?case
  proof (cases "bases (Base ?c)")
    case True
    then show ?thesis by (simp add: Let_def)
  next
    case False
    let ?s = "s\<lparr>SetupHeroes := SetupHeroes s @ [?c], Difficulty := Difficulty s + Points ?c\<rparr>"
    let ?r = "addHeroes hs idxs (bases(Base ?c := True)) ?s"
    have "SetupHeroes ?r = [] \<or>
         (length (SetupHeroes ?r) = length (SetupHeroes ?s) + length idxs \<and>
          distinct (map Base (SetupHeroes ?r)) \<and> set (SetupHeroes ?r) \<subseteq> set hs)"
    proof (rule Cons.IH)
      show "\<forall>b. (bases(Base ?c := True)) b \<longleftrightarrow> b \<in> Base ` set (SetupHeroes ?s)"
        using Cons.prems(1) by auto
      show "distinct (map Base (SetupHeroes ?s))"
        using Cons.prems(1,2) False by auto
      show "set (SetupHeroes ?s) \<subseteq> set hs"
        using Cons.prems(3,4) by auto
      show "\<forall>i \<in> set idxs. i < length hs"
        using Cons.prems(4) by simp
    qed
    with False show ?thesis by (simp add: Let_def)
  qed
qed

text \<open>
  Whatever the outer loop returns, started without heroes, has \<open>pc\<close> heroes of the pool
  with pairwise distinct bases.
\<close>

lemma makeSetup_loop_heroes:
  assumes "makeSetup_loop rnd cs pc s k = Some y"
  shows "SetupHeroes s = [] \<longrightarrow> (\<forall>s' k'. y = Inr (s', k') \<longrightarrow>
           int (length (SetupHeroes s')) = pc \<and> distinct (map Base (SetupHeroes s')) \<and>
           set (SetupHeroes s') \<subseteq> set (Heroes cs))"
proof (rule makeSetup_loop.raw_induct [where P = "\<lambda>rnd cs pc s k y.
         SetupHeroes s = [] \<longrightarrow> (\<forall>s' k'. y = Inr (s', k') \<longrightarrow>
           int (length (SetupHeroes s')) = pc \<and> distinct (map Base (SetupHeroes s')) \<and>
           set (SetupHeroes s') \<subseteq> set (Heroes cs))", OF _ assms])
  fix loop :: "(nat \<Rightarrow> nat) \<Rightarrow> CardSet \<Rightarrow> int \<Rightarrow> Setup \<Rightarrow> nat \<Rightarrow> (panic + Setup \<times> nat) option"
  fix rnd cs pc s k y
  assume IH: "\<And>rnd cs pc s k y. loop rnd cs pc s k = Some y \<Longrightarrow>
         SetupHeroes s = [] \<longrightarrow> (\<forall>s' k'. y = Inr (s', k') \<longrightarrow>
           int (length (SetupHeroes s')) = pc \<and> distinct (map Base (SetupHeroes s')) \<and>
           set (SetupHeroes s') \<subseteq> set (Heroes cs))"
  assume body: "(case pick rnd (int (length (Heroes cs))) pc k of
        Inl p \<Rightarrow> Some (Inl p)
      | Inr (idxs, k') \<Rightarrow>
          (let s' = addHeroes (Heroes cs) idxs (\<lambda>b. False) s in
           if SetupHeroes s' \<noteq> [] then Some (Inr (s', k'))
           else loop rnd cs pc s' k')) = Some y"
  show "SetupHeroes s = [] \<longrightarrow> (\<forall>s' k'. y = Inr (s', k') \<longrightarrow>
           int (length (SetupHeroes s')) = pc \<and> distinct (map Base (SetupHeroes s')) \<and>
           set (SetupHeroes s') \<subseteq> set (Heroes cs))"
  proof (intro impI allI)
    fix s' k'
    assume nil: "SetupHeroes s = []" and y: "y = Inr (s', k')"
    from body y obtain idxs k1 where
      P: "pick rnd (int (length (Heroes cs))) pc k = Inr (idxs, k1)"
      by (auto split: sum.splits)
    let ?s1 = "addHeroes (Heroes cs) idxs (\<lambda>b. False) s"
    from pick_Inr [OF P] have pc: "0 < pc" and len: "length idxs = nat pc"
      and rng: "\<forall>i \<in> set idxs. i < length (Heroes cs)"
      by auto
    have inv: "SetupHeroes ?s1 = [] \<or>
       (length (SetupHeroes ?s1) = length (SetupHeroes s) + length idxs \<and>
        distinct (map Base (SetupHeroes ?s1)) \<and> set (SetupHeroes ?s1) \<subseteq> set (Heroes cs))"
      by (rule addHeroes_inv) (use nil rng in auto)
    show "int (length (SetupHeroes s')) = pc \<and> distinct (map Base (SetupHeroes s')) \<and>
           set (SetupHeroes s') \<subseteq> set (Heroes cs)"
    proof (cases "SetupHeroes ?s1 = []")
      case True
      with body P have "loop rnd cs pc ?s1 k1 = Some y"
        by (simp add: Let_def)
      from IH [OF this] True y show ?thesis by blast
    next
      case False
      with body P y have "s' = ?s1"
        by (simp add: Let_def)
      with inv False nil len pc show ?thesis by auto
    qed
  qed
qed

text \<open>
  Without a villain or without an environment \<open>makeSetup\<close> returns no setup, and an
  error only for too many players.
\<close>

lemma makeSetup_empty_pool:
  assumes "Villains cs = [] \<or> Environments cs = []"
  shows "makeSetup rnd cs pc pcpts k \<noteq> Some (Inr (Inr s, k'))"
    and "makeSetup rnd cs pc pcpts k = Some (Inr (Inl e, k')) \<Longrightarrow> int (length (Heroes cs)) < pc"
  using assms
  by (auto simp: makeSetup_def Intn_def Let_def split: option.splits sum.splits if_splits)

subsection \<open>Three runs of the sampler\<close>

lemma GetCardSet_base:
  "GetCardSet someCards [BaseSet] =
     \<lparr>Heroes = [Legacy, Haka, Ra], Villains = [BaronBlade], Environments = [Megalopolis]\<rparr>"
  by (simp add: GetCardSet_def addCard_def card_defs)

lemma GetCardSet_base_promos:
  "GetCardSet someCards [BaseSet, Promos] =
     \<lparr>Heroes = [Legacy, YoungLegacy, Haka, EternalHaka, Ra, GolemUnity],
      Villains = [BaronBlade, MadBomberBlade], Environments = [Megalopolis]\<rparr>"
  by (simp add: GetCardSet_def addCard_def card_defs)

lemma GetCardSet_promos:
  "GetCardSet someCards [Promos] =
     \<lparr>Heroes = [YoungLegacy, EternalHaka, GolemUnity], Villains = [MadBomberBlade],
      Environments = []\<rparr>"
  by (simp add: GetCardSet_def addCard_def card_defs)

lemma pick_rnd0: "pick rnd0 3 3 k = Inr ([0, 1, 2], k + 3)"
  by (simp add: pick_def shuffle.simps Intn_def rnd0_def upt_rec)

lemma pick_rnd1_first: "pick rnd1 6 3 0 = Inr ([0, 1, 2], 6)"
  by (simp add: pick_def shuffle.simps Intn_def rnd1_def upt_rec)

lemma pick_rnd1_second: "pick rnd1 6 3 6 = Inr ([0, 2, 4], 12)"
  by (simp add: pick_def shuffle.simps Intn_def rnd1_def upt_rec)

text \<open>Base set only, tape of zeros: the first draw has three distinct bases.\<close>

lemma makeSetup_base:
  "makeSetup rnd0 (GetCardSet someCards [BaseSet]) 3 42 k = Some (Inr (Inr (drawn (-87)), k + 5))"
  unfolding makeSetup_def GetCardSet_base
  by (subst makeSetup_loop.simps) (simp add: pick_rnd0 Intn_def rnd0_def drawn_def card_defs)

text \<open>
  Base set and promos, tape \<open>rnd1\<close>: the first draw is Legacy, Young Legacy, Haka and is
  dropped at Young Legacy; the second is Legacy, Haka, Ra.
\<close>

lemma makeSetup_base_promos:
  "makeSetup rnd1 (GetCardSet someCards [BaseSet, Promos]) 3 42 0 =
     Some (Inr (Inr (drawn (-132)), 14))"
  unfolding makeSetup_def GetCardSet_base_promos
  apply (subst makeSetup_loop.simps)
  apply (subst makeSetup_loop.simps)
  apply (simp add: pick_rnd1_first pick_rnd1_second Intn_def rnd1_def drawn_def card_defs)
  done

text \<open>Promos only: three heroes, one villain, no environment.\<close>

lemma makeSetup_promos:
  "makeSetup rnd0 (GetCardSet someCards [Promos]) 3 42 k = Some (Inl IntnInvalidArgument)"
  unfolding makeSetup_def GetCardSet_promos
  by (subst makeSetup_loop.simps) (simp add: pick_rnd0 Intn_def rnd0_def card_defs)

lemma findDifficultyRange_9: "findDifficultyRange sentinelsData 9 = (-135, -130)"
  by (simp add: findDifficultyRange_def sentinelsData_def sdScale_def bp_def leaves_scan_def
      record_match_def)

lemma findDifficultyRange_13: "findDifficultyRange sentinelsData 13 = (-90, -85)"
  by (simp add: findDifficultyRange_def sentinelsData_def sdScale_def bp_def leaves_scan_def
      record_match_def)

lemma findDifficultyRange_99: "findDifficultyRange sentinelsData 99 = (495, 500)"
  by (simp add: findDifficultyRange_def sentinelsData_def sdScale_def bp_def leaves_scan_def
      record_match_def)

lemma Nump_sentinelsData: "Nump sentinelsData = [42, -38, -42]"
  by (simp add: sentinelsData_def sdNump_def)

subsection \<open>Claims about the sampler\<close>

text \<open>
  Claim C8: when \<open>playerCount\<close> is at most the number of eligible heroes, every setup
  that \<open>makeSetup\<close> returns has exactly \<open>playerCount\<close> heroes, taken from the pool, with
  pairwise distinct bases.
\<close>

theorem makeSetup_distinct_bases:
  assumes "pc \<le> int (length (Heroes cs))"
    and "makeSetup rnd cs pc pcpts k = Some (Inr (Inr s, k'))"
  shows "int (length (SetupHeroes s)) = pc \<and> distinct (map Base (SetupHeroes s)) \<and>
         set (SetupHeroes s) \<subseteq> set (Heroes cs)"
proof -
  let ?s0 = "\<lparr>SetupHeroes = [], SetupVillain = None, SetupEnvironment = None,
              PcPoints = pcpts, Difficulty = pcpts\<rparr>"
  from assms obtain s1 k1 where
    L: "makeSetup_loop rnd cs pc ?s0 k = Some (Inr (s1, k1))"
    and H: "SetupHeroes s = SetupHeroes s1"
    by (auto simp: makeSetup_def Let_def split: option.splits sum.splits if_splits)
  from makeSetup_loop_heroes [OF L] H show ?thesis by simp
qed

text \<open>A setup returned after a dropped draw: three heroes with three bases.\<close>

theorem makeSetup_distinct_bases_witness:
  "3 \<le> int (length (Heroes (GetCardSet someCards [BaseSet, Promos]))) \<and>
   makeSetup rnd1 (GetCardSet someCards [BaseSet, Promos]) 3 42 0 =
     Some (Inr (Inr (drawn (-132)), 14)) \<and>
   int (length (SetupHeroes (drawn (-132)))) = 3 \<and>
   distinct (map Base (SetupHeroes (drawn (-132)))) \<and>
   set (SetupHeroes (drawn (-132))) \<subseteq> set (Heroes (GetCardSet someCards [BaseSet, Promos]))"
proof -
  have h1: "3 \<le> int (length (Heroes (GetCardSet someCards [BaseSet, Promos])))"
    by (simp add: GetCardSet_base_promos)
  note h2 = makeSetup_base_promos
  from makeSetup_distinct_bases [OF h1 h2] h1 h2 show ?thesis by simp
qed

text \<open>
  Claim C1 fails in the code after a dropped draw. With base set and promos, three
  players (offset 42) and the tape \<open>rnd1\<close>, the first draw adds Legacy's \<open>-45\<close> and is
  dropped at Young Legacy; the heroes are reset, the score is not. The setup returned
  holds Legacy, Haka, Ra, Baron Blade and Megalopolis, whose additive score is \<open>-87\<close>,
  with \<open>Difficulty = -132\<close>; \<open>FindSetup\<close> accepts it for the target 9, whose band with
  range 10 is \<open>-145 .. -120\<close>.
\<close>

theorem makeSetup_keeps_points_of_dropped_draw:
  "makeSetup rnd1 (GetCardSet someCards [BaseSet, Promos]) 3 42 0 =
     Some (Inr (Inr (drawn (-132)), 14)) \<and>
   Difficulty (drawn (-132)) = -132 \<and>
   score_spec 42 (SetupHeroes (drawn (-132))) BaronBlade Megalopolis = -87 \<and>
   FindSetup sentinelsData someCards rnd1 3 9 10 [BaseSet, Promos] 0 =
     Some (Inr ((Some (drawn (-132)), 1, None), 14))"
proof -
  have "FindSetup sentinelsData someCards rnd1 3 9 10 [BaseSet, Promos] 0 =
     Some (Inr ((Some (drawn (-132)), 1, None), 14))"
    by (simp add: FindSetup_def findDifficultyRange_9 Nump_sentinelsData
        FindSetup_loop.simps [of _ _ _ _ _ _ _ 0] makeSetup_base_promos drawn_def
        wrap_def MinInt64_def MaxInt64_def)
  moreover have "score_spec 42 (SetupHeroes (drawn (-132))) BaronBlade Megalopolis = -87"
    by (simp add: score_spec_def drawn_def card_defs)
  ultimately show ?thesis
    using makeSetup_base_promos by (simp add: drawn_def)
qed

text \<open>
  Claim C5 fails in the code. With the promos alone the pool has three heroes, a
  villain and no environment; \<open>rand.Intn(0)\<close> panics in \<open>makeSetup\<close>, and \<open>FindSetup\<close>
  with it: no error value is returned.
\<close>

theorem makeSetup_panics_without_environment:
  "Environments (GetCardSet someCards [Promos]) = [] \<and>
   3 \<le> int (length (Heroes (GetCardSet someCards [Promos]))) \<and>
   makeSetup rnd0 (GetCardSet someCards [Promos]) 3 42 0 = Some (Inl IntnInvalidArgument) \<and>
   FindSetup sentinelsData someCards rnd0 3 50 10 [Promos] 0 = Some (Inl IntnInvalidArgument)"
proof -
  have "FindSetup sentinelsData someCards rnd0 3 50 10 [Promos] 0 = Some (Inl IntnInvalidArgument)"
    by (simp add: FindSetup_def Nump_sentinelsData FindSetup_loop.simps [of _ _ _ _ _ _ _ 0]
        makeSetup_promos split: prod.splits)
  then show ?thesis
    by (simp add: makeSetup_promos) (simp add: GetCardSet_promos)
qed

section \<open>The search\<close>

subsection \<open>Two more runs of the sampler\<close>

lemma pick_rnd2_first: "pick rnd2 6 3 0 = Inr ([0, 2, 4], 6)"
  by (simp add: pick_def shuffle.simps Intn_def rnd2_def upt_rec)

lemma pick_rnd2_second: "pick rnd2 6 3 8 = Inr ([0, 2, 4], 14)"
  by (simp add: pick_def shuffle.simps Intn_def rnd2_def upt_rec)

lemma makeSetup_rnd2_first:
  "makeSetup rnd2 (GetCardSet someCards [BaseSet, Promos]) 3 42 0 =
     Some (Inr (Inr drawn_bomber, 8))"
  unfolding makeSetup_def GetCardSet_base_promos
  by (subst makeSetup_loop.simps)
    (simp add: pick_rnd2_first Intn_def rnd2_def drawn_bomber_def card_defs)

lemma makeSetup_rnd2_second:
  "makeSetup rnd2 (GetCardSet someCards [BaseSet, Promos]) 3 42 8 =
     Some (Inr (Inr (drawn (-87)), 16))"
  unfolding makeSetup_def GetCardSet_base_promos
  by (subst makeSetup_loop.simps)
    (simp add: pick_rnd2_second Intn_def rnd2_def drawn_def card_defs)

subsection \<open>The trial loop\<close>

lemma nth_draw_0:
  "nth_draw rnd cs pc pcpts 0 k = Some (s, k') \<longleftrightarrow>
   makeSetup rnd cs pc pcpts k = Some (Inr (Inr s, k'))"
  by (auto simp: nth_draw.simps split: option.splits sum.splits prod.splits)

lemma nth_draw_Suc:
  "makeSetup rnd cs pc pcpts k = Some (Inr (Inr t, p)) \<Longrightarrow>
   nth_draw rnd cs pc pcpts (Suc j) k = nth_draw rnd cs pc pcpts j p"
  by (simp add: nth_draw.simps)

text \<open>
  A setup that the trial loop returns at index \<open>n\<close> is the draw of trial \<open>n\<close>, it passes the
  test of the loop, and the draws of the trials before it did not.
\<close>

lemma FindSetup_loop_returned:
  "FindSetup_loop rnd cs pc pcpts mn mx rg i k = Some (Inr ((Some s, n, e), k')) \<Longrightarrow>
   e = None \<and>
   (\<exists>j. i + int j < 100000 \<and> n = i + int j + 1 \<and>
      nth_draw rnd cs pc pcpts j k = Some (s, k') \<and>
      wrap (mn - rg) \<le> Difficulty s \<and> Difficulty s \<le> wrap (mx + rg) \<and>
      (\<forall>m<j. \<exists>t p. nth_draw rnd cs pc pcpts m k = Some (t, p) \<and>
         \<not> (wrap (mn - rg) \<le> Difficulty t \<and> Difficulty t \<le> wrap (mx + rg))))"
proof (induction rnd cs pc pcpts mn mx rg i k rule: FindSetup_loop.induct)
  case (1 rnd cs pc pcpts mn mx rg i k)
  let ?A = "\<lambda>t. wrap (mn - rg) \<le> Difficulty t \<and> Difficulty t \<le> wrap (mx + rg)"
  from "1.prems" have i: "\<not> 100000 \<le> i"
    by (subst (asm) FindSetup_loop.simps) (auto split: if_splits)
  from "1.prems" i obtain t k1 where M: "makeSetup rnd cs pc pcpts k = Some (Inr (Inr t, k1))"
    by (subst (asm) FindSetup_loop.simps) (auto split: option.splits sum.splits)
  show ?case
  proof (cases "?A t")
    case True
    with "1.prems" i M have eq: "s = t" "n = i + 1" "e = None" "k' = k1"
      by (subst (asm) FindSetup_loop.simps, simp)+
    from M eq have "nth_draw rnd cs pc pcpts 0 k = Some (s, k')"
      by (simp add: nth_draw_0)
    with True i eq show ?thesis
      by (intro conjI exI [of _ 0]) simp_all
  next
    case False
    with "1.prems" i M
    have "FindSetup_loop rnd cs pc pcpts mn mx rg (i + 1) k1 = Some (Inr ((Some s, n, e), k'))"
      by (subst (asm) FindSetup_loop.simps) simp
    from "1.IH" [OF i M refl refl refl _ this] False
    obtain j where e: "e = None" and j: "i + 1 + int j < 100000" "n = i + 1 + int j + 1"
      and d: "nth_draw rnd cs pc pcpts j k1 = Some (s, k')" and a: "?A s"
      and r: "\<forall>m<j. \<exists>t p. nth_draw rnd cs pc pcpts m k1 = Some (t, p) \<and> \<not> ?A t"
      by blast
    have r': "\<forall>m<Suc j. \<exists>u p. nth_draw rnd cs pc pcpts m k = Some (u, p) \<and> \<not> ?A u"
    proof (intro allI impI)
      fix m
      assume m: "m < Suc j"
      show "\<exists>u p. nth_draw rnd cs pc pcpts m k = Some (u, p) \<and> \<not> ?A u"
      proof (cases m)
        case 0
        with M False show ?thesis by (auto simp: nth_draw_0)
      next
        case (Suc m')
        with m r M show ?thesis by (simp add: nth_draw_Suc)
      qed
    qed
    from d M have "nth_draw rnd cs pc pcpts (Suc j) k = Some (s, k')"
      by (simp add: nth_draw_Suc)
    with e j a r' show ?thesis
      by (intro conjI exI [of _ "Suc j"]) simp_all
  qed
qed

text \<open>
  Conversely the loop returns the first draw that passes its test, with the index of
  its trial.
\<close>

lemma FindSetup_loop_returns_first:
  "i + int j < 100000 \<Longrightarrow>
   nth_draw rnd cs pc pcpts j k = Some (s, k') \<Longrightarrow>
   wrap (mn - rg) \<le> Difficulty s \<and> Difficulty s \<le> wrap (mx + rg) \<Longrightarrow>
   \<forall>m<j. \<exists>t p. nth_draw rnd cs pc pcpts m k = Some (t, p) \<and>
      \<not> (wrap (mn - rg) \<le> Difficulty t \<and> Difficulty t \<le> wrap (mx + rg)) \<Longrightarrow>
   FindSetup_loop rnd cs pc pcpts mn mx rg i k = Some (Inr ((Some s, i + int j + 1, None), k'))"
proof (induction j arbitrary: i k)
  case 0
  then have "makeSetup rnd cs pc pcpts k = Some (Inr (Inr s, k'))"
    by (simp add: nth_draw_0)
  with "0.prems"(1,3) show ?case
    by (subst FindSetup_loop.simps) simp
next
  case (Suc j)
  let ?A = "\<lambda>t. wrap (mn - rg) \<le> Difficulty t \<and> Difficulty t \<le> wrap (mx + rg)"
  from Suc.prems(4) obtain t p where
    "nth_draw rnd cs pc pcpts 0 k = Some (t, p)" and R: "\<not> ?A t"
    by blast
  then have M: "makeSetup rnd cs pc pcpts k = Some (Inr (Inr t, p))"
    by (simp add: nth_draw_0)
  have d: "nth_draw rnd cs pc pcpts j p = Some (s, k')"
    using Suc.prems(2) M by (simp add: nth_draw_Suc)
  have r: "\<forall>m<j. \<exists>u q. nth_draw rnd cs pc pcpts m p = Some (u, q) \<and> \<not> ?A u"
  proof (intro allI impI)
    fix m
    assume "m < j"
    then have "Suc m < Suc j" by simp
    with Suc.prems(4) have "\<exists>u q. nth_draw rnd cs pc pcpts (Suc m) k = Some (u, q) \<and> \<not> ?A u"
      by blast
    with M show "\<exists>u q. nth_draw rnd cs pc pcpts m p = Some (u, q) \<and> \<not> ?A u"
      by (simp add: nth_draw_Suc)
  qed
  from Suc.prems(1) have i: "i + 1 + int j < 100000" and i': "\<not> 100000 \<le> i"
    by simp_all
  from Suc.IH [OF i d Suc.prems(3) r]
  have "FindSetup_loop rnd cs pc pcpts mn mx rg (i + 1) p =
          Some (Inr ((Some s, i + 1 + int j + 1, None), k'))" .
  with M R i' show ?case
    by (subst FindSetup_loop.simps) (simp add: add.commute add.left_commute)
qed

text \<open>
  When every draw is a setup that fails the test and reads \<open>d\<close> cells, the loop makes
  \<open>100000 - i\<close> draws and returns the count 100001.
\<close>

lemma FindSetup_loop_exhausted:
  "\<forall>k. \<exists>s. makeSetup rnd cs pc pcpts k = Some (Inr (Inr s, k + d)) \<and>
          \<not> (wrap (mn - rg) \<le> Difficulty s \<and> Difficulty s \<le> wrap (mx + rg)) \<Longrightarrow>
   i \<le> 100000 \<Longrightarrow>
   FindSetup_loop rnd cs pc pcpts mn mx rg i k =
     Some (Inr ((None, 100001, Some NoSetupFound), k + nat (100000 - i) * d))"
proof (induction rnd cs pc pcpts mn mx rg i k rule: FindSetup_loop.induct)
  case (1 rnd cs pc pcpts mn mx rg i k)
  note A = "1.prems"(1)
  show ?case
  proof (cases "100000 \<le> i")
    case True
    with "1.prems"(2) have "i = 100000" by simp
    then show ?thesis by (subst FindSetup_loop.simps) simp
  next
    case False
    from A obtain s where
      M: "makeSetup rnd cs pc pcpts k = Some (Inr (Inr s, k + d))"
      and R: "\<not> (wrap (mn - rg) \<le> Difficulty s \<and> Difficulty s \<le> wrap (mx + rg))"
      by blast
    have "FindSetup_loop rnd cs pc pcpts mn mx rg (i + 1) (k + d) =
           Some (Inr ((None, 100001, Some NoSetupFound), k + d + nat (100000 - (i + 1)) * d))"
      using "1.IH" [OF False M refl refl refl R A] False by simp
    moreover have "k + d + nat (100000 - (i + 1)) * d = k + nat (100000 - i) * d"
    proof -
      from False have "nat (100000 - i) = Suc (nat (100000 - (i + 1)))" by simp
      then show ?thesis by simp
    qed
    ultimately show ?thesis
      using False M R by (subst FindSetup_loop.simps) simp
  qed
qed

subsection \<open>Claims about the search\<close>

text \<open>
  Claim C7: let \<open>(min, max)\<close> be the band that \<open>findDifficultyRange\<close> gives for the target,
  once, before the loop, and let \<open>min - rg\<close> and \<open>max + rg\<close> be representable (they are for
  every range from 0 to 100 on a table whose scores keep that distance from the bounds
  of a 64-bit integer). Then \<open>FindSetup\<close> returns a setup with index \<open>n\<close> exactly when
  that setup is the candidate drawn at trial \<open>n\<close>, its score lies in
  \<open>[min - rg, max + rg]\<close>, and the candidates of all trials before had scores outside
  that interval: a drawn candidate is accepted and returned if and only if its score
  is in the interval.
\<close>

theorem FindSetup_returns_first_in_band:
  assumes "findDifficultyRange sd lp = (mn, mx)"
    and "MinInt64 \<le> mn - rg" and "mn - rg \<le> MaxInt64"
    and "MinInt64 \<le> mx + rg" and "mx + rg \<le> MaxInt64"
  shows "FindSetup sd cards rnd pc lp rg exp k = Some (Inr ((Some s, n, e), k')) \<longleftrightarrow>
     3 \<le> pc \<and> pc - 3 < int (length (Nump sd)) \<and> e = None \<and>
     (\<exists>j. int j < 100000 \<and> n = int j + 1 \<and>
        nth_draw rnd (GetCardSet cards exp) pc (Nump sd ! nat (pc - 3)) j k = Some (s, k') \<and>
        mn - rg \<le> Difficulty s \<and> Difficulty s \<le> mx + rg \<and>
        (\<forall>m<j. \<exists>t p.
           nth_draw rnd (GetCardSet cards exp) pc (Nump sd ! nat (pc - 3)) m k = Some (t, p) \<and>
           \<not> (mn - rg \<le> Difficulty t \<and> Difficulty t \<le> mx + rg)))"
    (is "?L \<longleftrightarrow> ?R")
proof -
  let ?cs = "GetCardSet cards exp" and ?pts = "Nump sd ! nat (pc - 3)"
  have lo: "wrap (mn - rg) = mn - rg" and hi: "wrap (mx + rg) = mx + rg"
    using assms(2-5) by (simp_all add: wrap_in_range)
  have F: "FindSetup sd cards rnd pc lp rg exp k =
      (if pc - 3 < 0 \<or> pc - 3 \<ge> int (length (Nump sd)) then Some (Inl IndexOutOfRange)
       else FindSetup_loop rnd ?cs pc ?pts mn mx rg 0 k)"
    by (simp add: FindSetup_def assms(1))
  show ?thesis
  proof
    assume L: ?L
    with F have pc: "3 \<le> pc" "pc - 3 < int (length (Nump sd))"
      by (auto split: if_splits)
    with F L have "FindSetup_loop rnd ?cs pc ?pts mn mx rg 0 k = Some (Inr ((Some s, n, e), k'))"
      by simp
    from FindSetup_loop_returned [OF this] pc show ?R
      by (simp add: lo hi)
  next
    assume R: ?R
    then obtain j where j: "0 + int j < 100000" and n: "n = int j + 1"
      and d: "nth_draw rnd ?cs pc ?pts j k = Some (s, k')"
      and a: "wrap (mn - rg) \<le> Difficulty s \<and> Difficulty s \<le> wrap (mx + rg)"
      and r: "\<forall>m<j. \<exists>t p. nth_draw rnd ?cs pc ?pts m k = Some (t, p) \<and>
                \<not> (wrap (mn - rg) \<le> Difficulty t \<and> Difficulty t \<le> wrap (mx + rg))"
      by (auto simp: lo hi)
    from FindSetup_loop_returns_first [OF j d a r] n R
    have "FindSetup_loop rnd ?cs pc ?pts mn mx rg 0 k = Some (Inr ((Some s, n, e), k'))"
      by simp
    with F R show ?L by simp
  qed
qed

text \<open>
  Base set and promos, three players, target 13 (band \<open>-90 .. -85\<close>), range 10, tape
  \<open>rnd2\<close>: the first draw scores \<open>-61\<close> and is passed over, the second scores \<open>-87\<close> and
  is returned with index 2.
\<close>

theorem FindSetup_returns_first_in_band_witness:
  "findDifficultyRange sentinelsData 13 = (-90, -85) \<and>
   MinInt64 \<le> -90 - 10 \<and> -90 - 10 \<le> MaxInt64 \<and> MinInt64 \<le> -85 + 10 \<and> -85 + 10 \<le> MaxInt64 \<and>
   nth_draw rnd2 (GetCardSet someCards [BaseSet, Promos]) 3 42 0 0 = Some (drawn_bomber, 8) \<and>
   \<not> (-90 - 10 \<le> Difficulty drawn_bomber \<and> Difficulty drawn_bomber \<le> -85 + 10) \<and>
   nth_draw rnd2 (GetCardSet someCards [BaseSet, Promos]) 3 42 1 0 = Some (drawn (-87), 16) \<and>
   -90 - 10 \<le> Difficulty (drawn (-87)) \<and> Difficulty (drawn (-87)) \<le> -85 + 10 \<and>
   FindSetup sentinelsData someCards rnd2 3 13 10 [BaseSet, Promos] 0 =
     Some (Inr ((Some (drawn (-87)), 2, None), 16))"
proof -
  let ?cs = "GetCardSet someCards [BaseSet, Promos]"
  note b = findDifficultyRange_13
  have h: "MinInt64 \<le> -90 - 10" "-90 - 10 \<le> MaxInt64" "MinInt64 \<le> -85 + 10" "-85 + 10 \<le> MaxInt64"
    by (simp_all add: MinInt64_def MaxInt64_def)
  have d0: "nth_draw rnd2 ?cs 3 42 0 0 = Some (drawn_bomber, 8)"
    by (simp add: nth_draw_0 makeSetup_rnd2_first)
  have d1: "nth_draw rnd2 ?cs 3 42 1 0 = Some (drawn (-87), 16)"
    using nth_draw_Suc [OF makeSetup_rnd2_first, of 0] by (simp add: nth_draw_0 makeSetup_rnd2_second)
  have r: "\<not> (-90 - 10 \<le> Difficulty drawn_bomber \<and> Difficulty drawn_bomber \<le> -85 + 10)"
    by (simp add: drawn_bomber_def)
  have a: "-90 - 10 \<le> Difficulty (drawn (-87)) \<and> Difficulty (drawn (-87)) \<le> -85 + 10"
    by (simp add: drawn_def)
  have before: "\<forall>m<1. \<exists>t p. nth_draw rnd2 ?cs 3 42 m 0 = Some (t, p) \<and>
                  \<not> (-90 - 10 \<le> Difficulty t \<and> Difficulty t \<le> -85 + 10)"
    using d0 r by auto
  note T = FindSetup_returns_first_in_band [OF b h, where cards = someCards and rnd = rnd2
      and pc = 3 and exp = "[BaseSet, Promos]" and k = 0 and s = "drawn (-87)" and n = 2
      and e = None and k' = 16]
  have "FindSetup sentinelsData someCards rnd2 3 13 10 [BaseSet, Promos] 0 =
     Some (Inr ((Some (drawn (-87)), 2, None), 16))"
  proof (rule T [THEN iffD2], intro conjI)
    show "\<exists>j. int j < 100000 \<and> (2 :: int) = int j + 1 \<and>
        nth_draw rnd2 ?cs 3 (Nump sentinelsData ! nat (3 - 3)) j 0 = Some (drawn (-87), 16) \<and>
        -90 - 10 \<le> Difficulty (drawn (-87)) \<and> Difficulty (drawn (-87)) \<le> -85 + 10 \<and>
        (\<forall>m<j. \<exists>t p.
           nth_draw rnd2 ?cs 3 (Nump sentinelsData ! nat (3 - 3)) m 0 = Some (t, p) \<and>
           \<not> (-90 - 10 \<le> Difficulty t \<and> Difficulty t \<le> -85 + 10))"
      using d1 a before by (intro exI [of _ 1]) (simp add: Nump_sentinelsData)
  qed (simp_all add: Nump_sentinelsData)
  with b h d0 d1 r a show ?thesis by simp
qed

text \<open>
  Claim C2 fails in the code on exhaustion. Base set, three players, target 99 (band
  \<open>495 .. 500\<close>), range 10, tape of zeros: each of the 100000 draws reads five cells and
  scores \<open>-87\<close>; the search ends at cell 500000 and reports 100001 trials.
\<close>

theorem FindSetup_exhausted_reports_100001:
  "FindSetup sentinelsData someCards rnd0 3 99 10 [BaseSet] 0 =
     Some (Inr ((None, 100001, Some NoSetupFound), 500000))"
proof -
  have "\<forall>k. \<exists>s. makeSetup rnd0 (GetCardSet someCards [BaseSet]) 3 42 k = Some (Inr (Inr s, k + 5)) \<and>
          \<not> (wrap (495 - 10) \<le> Difficulty s \<and> Difficulty s \<le> wrap (500 + 10))"
    by (simp add: makeSetup_base drawn_def wrap_def MinInt64_def MaxInt64_def)
  from FindSetup_loop_exhausted [OF this, of 0 0]
  have "FindSetup_loop rnd0 (GetCardSet someCards [BaseSet]) 3 42 495 500 10 0 0 =
     Some (Inr ((None, 100001, Some NoSetupFound), 500000))"
    by simp
  then show ?thesis
    by (simp add: FindSetup_def findDifficultyRange_99 Nump_sentinelsData)
qed

text \<open>
  For a \<open>playerCount\<close> that has an entry in the offset table and exceeds the number of
  eligible heroes, \<open>FindSetup\<close> returns at once the error for too many players, with 0
  trials and without reading the tape.
\<close>

lemma FindSetup_too_many_players:
  "3 \<le> pc \<Longrightarrow> pc - 3 < int (length (Nump sd)) \<Longrightarrow>
   int (length (Heroes (GetCardSet cards exp))) < pc \<Longrightarrow>
   FindSetup sd cards rnd pc lp rg exp k = Some (Inr ((None, 0, Some TooManyPlayers), k))"
  by (simp add: FindSetup_def Let_def FindSetup_loop.simps [of _ _ _ _ _ _ _ 0] makeSetup_def
      split: prod.splits)

text \<open>
  Claim C9 fails in the code for a \<open>playerCount\<close> above 5. Six players exceed the three
  eligible heroes of the base-set cards; \<open>FindSetup\<close> panics on the offset table before
  \<open>makeSetup\<close> can return its error, and so does the web handler when 6 is posted.
\<close>

theorem FindSetup_six_players_panics:
  "int (length (Heroes (GetCardSet someCards [BaseSet]))) < 6 \<and>
   FindSetup sentinelsData someCards rnd0 6 50 10 [BaseSet] 0 = Some (Inl IndexOutOfRange) \<and>
   handler_POST sentinelsData someCards rnd0 6 50 [BaseSet] 0 = Some (Inl IndexOutOfRange)"
proof -
  have "FindSetup sentinelsData someCards rnd0 6 50 10 [BaseSet] 0 = Some (Inl IndexOutOfRange)"
    by (simp add: FindSetup_def Nump_sentinelsData split: prod.splits)
  then show ?thesis
    by (simp add: GetCardSet_base handler_POST_def)
qed

text \<open>
  Claim C10: the offset table has three entries, and for a \<open>playerCount\<close> below 3 or
  above 5 \<open>FindSetup\<close> panics with an index out of range; so does the web handler, which
  passes the parsed player count on whenever an expansion is ticked.
\<close>

theorem FindSetup_panics_outside_3_to_5:
  "length (Nump sd) = 3 \<Longrightarrow> pc < 3 \<or> 5 < pc \<Longrightarrow>
   FindSetup sd cards rnd pc lp rg exp k = Some (Inl IndexOutOfRange) \<and>
   (exp \<noteq> [] \<longrightarrow> handler_POST sd cards rnd pc lp exp k = Some (Inl IndexOutOfRange))"
  by (auto simp: FindSetup_def handler_POST_def Let_def split: prod.splits)

text \<open>Two players, posted with the base set ticked, on the dataset.\<close>

theorem FindSetup_panics_outside_3_to_5_witness:
  "length (Nump sentinelsData) = 3 \<and> ((2 :: int) < 3 \<or> (5 :: int) < 2) \<and> [BaseSet] \<noteq> [] \<and>
   FindSetup sentinelsData someCards rnd0 2 50 10 [BaseSet] 0 = Some (Inl IndexOutOfRange) \<and>
   handler_POST sentinelsData someCards rnd0 2 50 [BaseSet] 0 = Some (Inl IndexOutOfRange)"
proof -
  have h1: "length (Nump sentinelsData) = 3"
    by (simp add: Nump_sentinelsData)
  have h2: "(2 :: int) < 3 \<or> (5 :: int) < 2" by simp
  from FindSetup_panics_outside_3_to_5 [OF h1 h2, of someCards rnd0 50 10 "[BaseSet]" 0] h1
  show ?thesis by simp
qed

end
